theory Spec2Isabelle
  imports Complex_Main "HOL-Library.Log_Nat"
begin

section \<open>Data model (src/src/types.ts)\<close>

text \<open>
  A habit is an object with the two string fields \<open>id\<close> and \<open>name\<close>. The field names
  carry a prefix because \<open>id\<close> is the identity function of HOL.
\<close>

record Habit =
  habit_id :: string
  habit_name :: string

text \<open>
  \<open>HabitStatus = boolean | 'skipped' | undefined\<close>: the value a cell of the completion
  log can hold. \<open>SBool True\<close> is the source's \<open>true\<close>, \<open>Skipped\<close> is the string
  \<open>'skipped'\<close>, \<open>Undefined\<close> is the value \<open>undefined\<close>.
\<close>

datatype HabitStatus = SBool bool | Skipped | Undefined

text \<open>
  \<open>HabitCompletion\<close>: an object keyed by date string whose values are objects keyed by
  habit id. Objects are finite maps of their own properties; a property that is present
  with the value \<open>undefined\<close> is \<open>Some Undefined\<close>, an absent property is \<open>None\<close>.
  Keys are taken not to be names inherited from \<open>Object.prototype\<close>.
\<close>

type_synonym DayCompletion = "string \<rightharpoonup> HabitStatus"
type_synonym HabitCompletion = "string \<rightharpoonup> DayCompletion"

definition INITIAL_HABITS :: "Habit list" where
  "INITIAL_HABITS =
    [\<lparr>habit_id = ''1'', habit_name = ''Get up at 5:00 AM''\<rparr>,
     \<lparr>habit_id = ''2'', habit_name = ''All prayers in time''\<rparr>,
     \<lparr>habit_id = ''3'', habit_name = ''Study for govt 1 hour''\<rparr>,
     \<lparr>habit_id = ''4'', habit_name = ''Road to Data Analyst 2 hours''\<rparr>,
     \<lparr>habit_id = ''5'', habit_name = ''Business plan and execute 2 hours''\<rparr>,
     \<lparr>habit_id = ''6'', habit_name = ''MMA (Sat, Sun)''\<rparr>,
     \<lparr>habit_id = ''7'', habit_name = ''Being reserve''\<rparr>,
     \<lparr>habit_id = ''8'', habit_name = ''GYM''\<rparr>,
     \<lparr>habit_id = ''9'', habit_name = ''Shower''\<rparr>,
     \<lparr>habit_id = ''10'', habit_name = ''Daily task''\<rparr>,
     \<lparr>habit_id = ''11'', habit_name = ''Project''\<rparr>,
     \<lparr>habit_id = ''12'', habit_name = ''Perseverance''\<rparr>,
     \<lparr>habit_id = ''13'', habit_name = ''No screentime & social accounts''\<rparr>,
     \<lparr>habit_id = ''14'', habit_name = ''No waste of time''\<rparr>,
     \<lparr>habit_id = ''15'', habit_name = ''Sleep at 11:00 PM''\<rparr>]"

text \<open>
  Reading a cell, \<open>completions[dateKey]?.[habitId]\<close> (and the equivalent
  \<open>(completions[dateKey] || {})[habit.id]\<close>): an absent date key or an absent habit key
  reads as \<open>undefined\<close>, exactly like a stored \<open>undefined\<close>.
\<close>

definition read_cell :: "HabitCompletion \<Rightarrow> string \<Rightarrow> string \<Rightarrow> HabitStatus" where
  "read_cell completions dateKey habitId =
     (case completions dateKey of
        None \<Rightarrow> Undefined
      | Some dayCompletions \<Rightarrow>
          (case dayCompletions habitId of None \<Rightarrow> Undefined | Some status \<Rightarrow> status))"

text \<open>The own property stored under a date key and a habit id, if there is one.\<close>

definition stored_entry :: "HabitCompletion \<Rightarrow> string \<Rightarrow> string \<Rightarrow> HabitStatus option" where
  "stored_entry completions dateKey habitId =
     (case completions dateKey of None \<Rightarrow> None | Some dayCompletions \<Rightarrow> dayCompletions habitId)"

text \<open>
  The three states of the specification, as the code tells them apart: a cell is
  completed when it is \<open>=== true\<close>, left out when it is \<open>=== 'skipped'\<close>, and unset
  otherwise (\<open>undefined\<close>, and also a stored \<open>false\<close>).
\<close>

datatype TriState = Done | SkippedDay | Unset

fun tri_state :: "HabitStatus \<Rightarrow> TriState" where
  "tri_state (SBool True) = Done"
| "tri_state Skipped = SkippedDay"
| "tri_state (SBool False) = Unset"
| "tri_state Undefined = Unset"

definition cell_state :: "HabitCompletion \<Rightarrow> string \<Rightarrow> string \<Rightarrow> TriState" where
  "cell_state completions dateKey habitId = tri_state (read_cell completions dateKey habitId)"

section \<open>Strings and dates\<close>

text \<open>
  \<open>String.prototype.trim\<close> removes white space and line terminators from both ends.
  A \<open>char\<close> stands for a code unit below 256; the white space among those is
  U+0009 to U+000D, U+0020 and U+00A0.
\<close>

definition js_whitespace :: "char \<Rightarrow> bool" where
  "js_whitespace c = (let n = (of_char c :: nat) in (9 \<le> n \<and> n \<le> 13) \<or> n = 32 \<or> n = 160)"

definition trim :: "string \<Rightarrow> string" where
  "trim s = rev (dropWhile js_whitespace (rev (dropWhile js_whitespace s)))"

text \<open>
  A local calendar date: year, month (0 to 11, as \<open>Date\<close> counts them) and day of the
  month. The calendar functions of date-fns that the code calls are modelled on it.
\<close>

record Date =
  getFullYear :: nat
  getMonth :: nat
  getDate :: nat

definition leap_year :: "nat \<Rightarrow> bool" where
  "leap_year y = (y mod 4 = 0 \<and> (y mod 100 \<noteq> 0 \<or> y mod 400 = 0))"

definition days_in_month :: "nat \<Rightarrow> nat \<Rightarrow> nat" where
  "days_in_month y m =
     (if m = 1 then (if leap_year y then 29 else 28)
      else if m = 3 \<or> m = 5 \<or> m = 8 \<or> m = 10 then 30
      else 31)"

text \<open>
  \<open>eachDayOfInterval({start: startOfMonth(d), end: endOfMonth(d)})\<close>: the days of the
  month of \<open>d\<close>, in order.
\<close>

definition eachDayOfMonth :: "Date \<Rightarrow> Date list" where
  "eachDayOfMonth d =
     map (\<lambda>k. \<lparr>getFullYear = getFullYear d, getMonth = getMonth d, getDate = k\<rparr>)
       [1..<Suc (days_in_month (getFullYear d) (getMonth d))]"

definition digit_char :: "nat \<Rightarrow> char" where
  "digit_char n = char_of (48 + n mod 10)"

fun decimal :: "nat \<Rightarrow> string" where
  "decimal n = (if n < 10 then [digit_char n] else decimal (n div 10) @ [digit_char n])"

declare decimal.simps [simp del]

definition pad_left :: "nat \<Rightarrow> string \<Rightarrow> string" where
  "pad_left w s = replicate (w - length s) (CHR ''0'') @ s"

text \<open>\<open>format(date, 'yyyy-MM-dd')\<close> and \<open>format(date, 'd')\<close>.\<close>

definition format_yyyy_MM_dd :: "Date \<Rightarrow> string" where
  "format_yyyy_MM_dd d =
     pad_left 4 (decimal (getFullYear d)) @ ''-'' @
     pad_left 2 (decimal (Suc (getMonth d))) @ ''-'' @
     pad_left 2 (decimal (getDate d))"

definition format_d :: "Date \<Rightarrow> string" where
  "format_d d = decimal (getDate d)"

definition month_full_names :: "string list" where
  "month_full_names =
     [''January'', ''February'', ''March'', ''April'', ''May'', ''June'', ''July'',
      ''August'', ''September'', ''October'', ''November'', ''December'']"

text \<open>\<open>format(date, 'MMMM')\<close> and \<open>format(date, 'MMM')\<close> for a month 0 to 11.\<close>

definition format_MMMM :: "Date \<Rightarrow> string" where
  "format_MMMM d = (if getMonth d < 12 then month_full_names ! getMonth d else [])"

definition format_MMM :: "Date \<Rightarrow> string" where
  "format_MMM d = take 3 (format_MMMM d)"

text \<open>
  \<open>new Date(year, monthIndex, 1)\<close>: the constructor reads a year from 0 to 99 as
  1900 + year.
\<close>

definition new_Date :: "nat \<Rightarrow> nat \<Rightarrow> nat \<Rightarrow> Date" where
  "new_Date y m k = \<lparr>getFullYear = (if y \<le> 99 then 1900 + y else y), getMonth = m, getDate = k\<rparr>"

section \<open>Numbers\<close>

text \<open>
  The percentages are computed in IEEE 754 double precision:
  \<open>Math.round((count / total) * 100)\<close>. A number is \<open>NaN\<close>, an infinity, or a finite
  value, held as the rational it denotes. \<open>round_double\<close> is rounding to the nearest
  double, ties to even, of a rational in the range of normal doubles (53 significant
  bits); every value the code computes, a quotient of two counters times 100, lies there.
\<close>

datatype jsnum = NaN | PosInf | NegInf | Num rat

text \<open>\<open>ilog2 x\<close> is the exponent of \<open>x > 0\<close>: the \<open>e\<close> with \<open>2^e \<le> x < 2^(e+1)\<close>.\<close>

definition ilog2 :: "rat \<Rightarrow> int" where
  "ilog2 x = (let (a, b) = quotient_of x; d = bitlen a - bitlen b
              in if 2 powi d \<le> x then d else d - 1)"

definition round_double :: "rat \<Rightarrow> rat" where
  "round_double x =
     (if x = 0 then 0
      else let u = 2 powi (ilog2 \<bar>x\<bar> - 52);
               q = \<bar>x\<bar> / u;
               n = \<lfloor>q\<rfloor>;
               r = q - of_int n;
               m = (if r < 1 / 2 \<or> (r = 1 / 2 \<and> even n) then n else n + 1)
           in sgn x * of_int m * u)"

text \<open>
  \<open>a / b\<close> for two counters (non-negative integers, exact as doubles):
  \<open>0 / 0\<close> is \<open>NaN\<close>, \<open>a / 0\<close> is \<open>Infinity\<close>.
\<close>

definition js_div :: "nat \<Rightarrow> nat \<Rightarrow> jsnum" where
  "js_div a b =
     (if b = 0 then (if a = 0 then NaN else PosInf)
      else Num (round_double (of_nat a / of_nat b)))"

text \<open>\<open>x * k\<close> for a finite positive constant \<open>k\<close>.\<close>

fun js_mul :: "jsnum \<Rightarrow> rat \<Rightarrow> jsnum" where
  "js_mul (Num x) k = Num (round_double (x * k))"
| "js_mul v k = v"

text \<open>\<open>k - x\<close> for a finite constant \<open>k\<close>.\<close>

fun js_sub_from :: "rat \<Rightarrow> jsnum \<Rightarrow> jsnum" where
  "js_sub_from k (Num x) = Num (round_double (k - x))"
| "js_sub_from k PosInf = NegInf"
| "js_sub_from k NegInf = PosInf"
| "js_sub_from k NaN = NaN"

text \<open>\<open>Math.round\<close>: the nearest integer, a tie going up.\<close>

fun Math_round :: "jsnum \<Rightarrow> jsnum" where
  "Math_round (Num x) = Num (of_int \<lfloor>x + 1 / 2\<rfloor>)"
| "Math_round v = v"

text \<open>
  The expression the four statistics share:
  \<open>total === 0 ? 0 : Math.round((count / total) * 100)\<close>.
\<close>

definition percentage_of :: "nat \<Rightarrow> nat \<Rightarrow> jsnum" where
  "percentage_of cnt tot =
     (if tot = 0 then Num 0 else Math_round (js_mul (js_div cnt tot) 100))"

text \<open>A finite whole number from 0 to 100.\<close>

definition is_percentage :: "jsnum \<Rightarrow> bool" where
  "is_percentage v =
     (case v of Num q \<Rightarrow> 0 \<le> q \<and> q \<le> 100 \<and> of_int \<lfloor>q\<rfloor> = q | _ \<Rightarrow> False)"

section \<open>Statistics (src/src/App.tsx)\<close>

text \<open>
  The body of every counting loop:
  \<open>if (status !== 'skipped') { total += 1; if (status === true) count += 1; }\<close>.
  The pair is (completed, possible).
\<close>

definition tally :: "HabitStatus \<Rightarrow> nat \<times> nat \<Rightarrow> nat \<times> nat" where
  "tally status acc =
     (case acc of (cnt, tot) \<Rightarrow>
        if status \<noteq> Skipped then (if status = SBool True then cnt + 1 else cnt, tot + 1)
        else (cnt, tot))"

record HabitStats =
  stats_count :: nat
  stats_total :: nat
  stats_percentage :: jsnum

text \<open>
  \<open>getHabitStats(habitId)\<close>. The variables \<open>daysInMonth\<close> and \<open>completions\<close> that the
  closure reads are parameters.
\<close>

definition getHabitStats :: "Date list \<Rightarrow> HabitCompletion \<Rightarrow> string \<Rightarrow> HabitStats" where
  "getHabitStats daysInMonth completions habitId =
     (case fold (\<lambda>day acc. tally (read_cell completions (format_yyyy_MM_dd day) habitId) acc)
             daysInMonth (0, 0) of
        (cnt, tot) \<Rightarrow>
          \<lparr>stats_count = cnt, stats_total = tot, stats_percentage = percentage_of cnt tot\<rparr>)"

text \<open>The inner loop \<open>habits.forEach(habit => ...)\<close> over one day's entries.\<close>

definition tally_habits :: "Habit list \<Rightarrow> HabitCompletion \<Rightarrow> Date \<Rightarrow> nat \<times> nat \<Rightarrow> nat \<times> nat" where
  "tally_habits habits completions day acc =
     fold (\<lambda>habit acc'. tally (read_cell completions (format_yyyy_MM_dd day) (habit_id habit)) acc')
       habits acc"

record DayProgress =
  day_label :: string
  day_percentage :: jsnum
  day_completed :: nat

definition dailyProgressData :: "Date list \<Rightarrow> Habit list \<Rightarrow> HabitCompletion \<Rightarrow> DayProgress list" where
  "dailyProgressData daysInMonth habits completions =
     map (\<lambda>day.
           case tally_habits habits completions day (0, 0) of
             (dayCompleted, dayTotal) \<Rightarrow>
               \<lparr>day_label = format_d day,
                day_percentage = percentage_of dayCompleted dayTotal,
                day_completed = dayCompleted\<rparr>)
       daysInMonth"

record OverallStats =
  completed :: jsnum
  incomplete :: jsnum

definition monthlyOverallStats :: "Date list \<Rightarrow> Habit list \<Rightarrow> HabitCompletion \<Rightarrow> OverallStats" where
  "monthlyOverallStats daysInMonth habits completions =
     (case fold (tally_habits habits completions) daysInMonth (0, 0) of
        (totalCompleted, totalPossible) \<Rightarrow>
          \<lparr>completed = percentage_of totalCompleted totalPossible,
           incomplete =
             (if totalPossible = 0 then Num 0
              else js_sub_from 100 (percentage_of totalCompleted totalPossible))\<rparr>)"

record MonthStats =
  month_name :: string
  month_fullName :: string
  month_percentage :: jsnum
  month_totalPossible :: nat
  month_totalCompleted :: nat
  month_isFuture :: bool

text \<open>
  One pass of the loop \<open>for (let i = 0; i < 12; i++)\<close> of \<open>yearlyStats\<close>.
  \<open>monthDate > new Date()\<close> compares the first instant of the month with the present
  instant, which lies in the calendar day \<open>now\<close>: it holds when the month starts after
  the month of \<open>now\<close>.
\<close>

definition yearlyMonth :: "Date \<Rightarrow> Habit list \<Rightarrow> HabitCompletion \<Rightarrow> nat \<Rightarrow> nat \<Rightarrow> MonthStats" where
  "yearlyMonth now habits completions currentYear i =
     (let monthDate = new_Date currentYear i 1;
          days = eachDayOfMonth monthDate
      in case fold (tally_habits habits completions) days (0, 0) of
           (totalCompleted, totalPossible) \<Rightarrow>
             \<lparr>month_name = format_MMM monthDate,
              month_fullName = format_MMMM monthDate,
              month_percentage = percentage_of totalCompleted totalPossible,
              month_totalPossible = totalPossible,
              month_totalCompleted = totalCompleted,
              month_isFuture =
                (getFullYear now < getFullYear monthDate \<or>
                 (getFullYear now = getFullYear monthDate \<and> getMonth now < getMonth monthDate))\<rparr>)"

definition yearlyStats :: "Date \<Rightarrow> Date \<Rightarrow> Habit list \<Rightarrow> HabitCompletion \<Rightarrow> MonthStats list" where
  "yearlyStats now currentDate habits completions =
     map (yearlyMonth now habits completions (getFullYear currentDate)) [0..<12]"

section \<open>State and mutations (src/src/App.tsx)\<close>

record Snapshot =
  snap_habits :: "Habit list"
  snap_completions :: HabitCompletion

text \<open>
  The state variables of the component that the mutations read and write. Each handler
  runs on the state of the render it was created in; \<open>daysInMonth\<close> is derived from
  \<open>currentDate\<close>.
\<close>

record AppState =
  currentDate :: Date
  habits :: "Habit list"
  completions :: HabitCompletion
  history :: "Snapshot list"
  editingHabitId :: "string option"
  editValue :: string
  isAdding :: bool
  newValue :: string

definition daysInMonth :: "AppState \<Rightarrow> Date list" where
  "daysInMonth s = eachDayOfMonth (currentDate s)"

text \<open>
  \<open>JSON.parse(JSON.stringify(v))\<close>. On a list of habits it rebuilds every object from its
  two string fields. On a completion log it rebuilds every day object and leaves out each
  property whose value is \<open>undefined\<close>; \<open>true\<close>, \<open>false\<close> and \<open>'skipped'\<close> are kept.
\<close>

definition json_copy_habits :: "Habit list \<Rightarrow> Habit list" where
  "json_copy_habits hs = map (\<lambda>h. \<lparr>habit_id = habit_id h, habit_name = habit_name h\<rparr>) hs"

definition json_copy_day :: "DayCompletion \<Rightarrow> DayCompletion" where
  "json_copy_day dayCompletions =
     (\<lambda>habitId. case dayCompletions habitId of
                   None \<Rightarrow> None
                 | Some Undefined \<Rightarrow> None
                 | Some status \<Rightarrow> Some status)"

definition json_copy_completions :: "HabitCompletion \<Rightarrow> HabitCompletion" where
  "json_copy_completions c = (\<lambda>dateKey. map_option json_copy_day (c dateKey))"

definition pushToHistory :: "Habit list \<Rightarrow> HabitCompletion \<Rightarrow> Snapshot list \<Rightarrow> Snapshot list" where
  "pushToHistory currentHabits currentCompletions prev =
     (let newHistory = prev @ [\<lparr>snap_habits = json_copy_habits currentHabits,
                                snap_completions = json_copy_completions currentCompletions\<rparr>]
      in if length newHistory > 50 then drop 1 newHistory else newHistory)"

definition undo :: "AppState \<Rightarrow> AppState" where
  "undo s =
     (if length (history s) = 0 then s
      else let lastState = last (history s)
           in s\<lparr>habits := snap_habits lastState,
                completions := snap_completions lastState,
                history := butlast (history s)\<rparr>)"

text \<open>
  \<open>addHabit\<close>. The identifier that \<open>crypto.randomUUID()\<close> (or the \<open>Math.random\<close>
  fallback) returns is the parameter \<open>newId\<close>.
\<close>

definition addHabit :: "string \<Rightarrow> AppState \<Rightarrow> AppState" where
  "addHabit newId s =
     (if trim (newValue s) = [] then s
      else s\<lparr>history := pushToHistory (habits s) (completions s) (history s),
             habits := habits s @ [\<lparr>habit_id = newId, habit_name = trim (newValue s)\<rparr>],
             newValue := [],
             isAdding := False\<rparr>)"

definition deleteHabit :: "string \<Rightarrow> AppState \<Rightarrow> AppState" where
  "deleteHabit i s =
     s\<lparr>history := pushToHistory (habits s) (completions s) (history s),
       habits := filter (\<lambda>h. habit_id h \<noteq> i) (habits s)\<rparr>"

definition startEditing :: "Habit \<Rightarrow> AppState \<Rightarrow> AppState" where
  "startEditing habit s = s\<lparr>editingHabitId := Some (habit_id habit), editValue := habit_name habit\<rparr>"

definition saveEdit :: "AppState \<Rightarrow> AppState" where
  "saveEdit s =
     (if trim (editValue s) = [] then s
      else s\<lparr>history := pushToHistory (habits s) (completions s) (history s),
             habits := map (\<lambda>h. if Some (habit_id h) = editingHabitId s
                                 then h\<lparr>habit_name := trim (editValue s)\<rparr> else h) (habits s),
             editingHabitId := None\<rparr>)"

text \<open>The updater that \<open>cycleHabitState\<close> hands to \<open>setCompletions\<close>.\<close>

definition truthy :: "HabitStatus \<Rightarrow> bool" where
  "truthy status = (status = SBool True \<or> status = Skipped)"

definition nextStatus :: "HabitStatus \<Rightarrow> HabitStatus" where
  "nextStatus currentStatus =
     (if \<not> truthy currentStatus then SBool True
      else if currentStatus = SBool True then Skipped
      else Undefined)"

definition cycle_completions :: "string \<Rightarrow> string \<Rightarrow> HabitCompletion \<Rightarrow> HabitCompletion" where
  "cycle_completions dateKey habitId prev =
     prev(dateKey \<mapsto>
       (case prev dateKey of None \<Rightarrow> Map.empty | Some dayCompletions \<Rightarrow> dayCompletions)
         (habitId \<mapsto> nextStatus (read_cell prev dateKey habitId)))"

definition cycleHabitState :: "Date \<Rightarrow> string \<Rightarrow> AppState \<Rightarrow> AppState" where
  "cycleHabitState date habitId s =
     s\<lparr>history := pushToHistory (habits s) (completions s) (history s),
       completions := cycle_completions (format_yyyy_MM_dd date) habitId (completions s)\<rparr>"

section \<open>The state endpoint (functions/api/state.ts)\<close>

text \<open>
  JSON values, and the two built-ins the handler calls: \<open>JSON.parse\<close>, which returns a
  value or throws a \<open>SyntaxError\<close>, and \<open>JSON.stringify\<close>. Both are parameters of the
  handler's model.
\<close>

datatype json =
    JNull
  | JBool bool
  | JNumber rat
  | JString string
  | JArray "json list"
  | JObject "(string \<times> json) list"

datatype js_error = SyntaxError

record Response =
  resp_status :: nat
  resp_headers :: "(string \<times> string) list"
  resp_body :: string

definition json_response :: "(json \<Rightarrow> string) \<Rightarrow> json \<Rightarrow> nat \<Rightarrow> Response" where
  "json_response stringify data status =
     \<lparr>resp_status = status,
      resp_headers = [(''content-type'', ''application/json; charset=utf-8''),
                      (''cache-control'', ''no-store'')],
      resp_body = stringify data\<rparr>"

definition default_state :: json where
  "default_state = JObject [(''habits'', JArray []), (''completions'', JObject [])]"

text \<open>
  \<open>onRequestGet\<close>. \<open>row\<close> is what the query's \<open>first()\<close> resolved to: \<open>None\<close> for
  \<open>null\<close> (no record), otherwise the \<open>state_json\<close> column of the record.
\<close>

definition onRequestGet ::
  "(string \<Rightarrow> js_error + json) \<Rightarrow> (json \<Rightarrow> string) \<Rightarrow> string option \<Rightarrow> Response" where
  "onRequestGet parse stringify row =
     (case row of
        None \<Rightarrow> json_response stringify default_state 200
      | Some state_json \<Rightarrow>
          (case parse state_json of
             Inr v \<Rightarrow> json_response stringify v 200
           | Inl err \<Rightarrow> json_response stringify default_state 200))"

section \<open>Sample inputs\<close>

text \<open>
  The state of the first render, before the stored state is loaded: the built-in habits,
  an empty completion log, no history.
\<close>

definition initial_state :: "Date \<Rightarrow> AppState" where
  "initial_state now =
     \<lparr>currentDate = now, habits = INITIAL_HABITS, completions = Map.empty, history = [],
      editingHabitId = None, editValue = [], isAdding = False, newValue = []\<rparr>"

definition sample_day :: Date where
  "sample_day = \<lparr>getFullYear = 2024, getMonth = 0, getDate = 1\<rparr>"

text \<open>One cell clicked three times, and four times, starting from the first render.\<close>

definition thrice_cycled :: AppState where
  "thrice_cycled =
     cycleHabitState sample_day ''1'' (cycleHabitState sample_day ''1''
       (cycleHabitState sample_day ''1'' (initial_state sample_day)))"

definition four_times_cycled :: AppState where
  "four_times_cycled = cycleHabitState sample_day ''1'' thrice_cycled"

definition skipped_log :: HabitCompletion where
  "skipped_log = [''2024-01-01'' \<mapsto> [''1'' \<mapsto> Skipped]]"

definition empty_snapshot :: Snapshot where
  "empty_snapshot = \<lparr>snap_habits = [], snap_completions = Map.empty\<rparr>"

text \<open>A parser and a printer that know two texts, enough to run the handler.\<close>

definition parse_sample :: "string \<Rightarrow> js_error + json" where
  "parse_sample s =
     (if s = ''{\"habits\":[],\"completions\":{}}'' then Inr default_state
      else if s = ''null'' then Inr JNull
      else Inl SyntaxError)"

definition stringify_sample :: "json \<Rightarrow> string" where
  "stringify_sample v = (if v = JNull then ''null'' else ''{\"habits\":[],\"completions\":{}}'')"




text \<open>
  The two-day range and the log of the specification's scenario: habit 1 is done on the
  first day and has no entry on the second.
\<close>

definition second_day :: Date where
  "second_day = \<lparr>getFullYear = 2024, getMonth = 0, getDate = 2\<rparr>"

definition two_days :: "Date list" where
  "two_days = [sample_day, second_day]"

definition scenario_log :: HabitCompletion where
  "scenario_log = [''2024-01-01'' \<mapsto> [''1'' \<mapsto> SBool True]]"

text \<open>
  A log with an entry for habit 1 and one for habit 2, the state that holds it, and the
  same log without the entry for habit 1.
\<close>

definition orphan_log :: HabitCompletion where
  "orphan_log = [''2024-01-01'' \<mapsto> [''1'' \<mapsto> SBool True, ''2'' \<mapsto> Skipped]]"

definition orphan_state :: AppState where
  "orphan_state = (initial_state sample_day)\<lparr>completions := orphan_log\<rparr>"

definition pruned_log :: HabitCompletion where
  "pruned_log = [''2024-01-01'' \<mapsto> [''2'' \<mapsto> Skipped]]"

section \<open>Reading and writing cells\<close>

lemma json_copy_habits_id: "json_copy_habits hs = hs"
  by (induction hs) (simp_all add: json_copy_habits_def)

lemma read_cell_cycle:
  "read_cell (cycle_completions k h c) k' h' =
     (if k' = k \<and> h' = h then nextStatus (read_cell c k h) else read_cell c k' h')"
  by (auto simp: read_cell_def cycle_completions_def split: option.splits)

lemma stored_entry_cycle:
  "stored_entry (cycle_completions k h c) k' h' =
     (if k' = k \<and> h' = h then Some (nextStatus (read_cell c k h)) else stored_entry c k' h')"
  by (auto simp: stored_entry_def cycle_completions_def split: option.splits)


lemma completions_cycleHabitState:
  "completions (cycleHabitState d h s) = cycle_completions (format_yyyy_MM_dd d) h (completions s)"
  by (simp add: cycleHabitState_def)


lemma read_cell_initial: "read_cell (completions (initial_state now)) k h = Undefined"
  by (simp add: read_cell_def initial_state_def)


lemma stored_entry_thrice_cycled:
  "stored_entry (completions thrice_cycled) (format_yyyy_MM_dd sample_day) ''1'' = Some Undefined"
  by (simp add: thrice_cycled_def completions_cycleHabitState stored_entry_cycle read_cell_cycle
      read_cell_initial nextStatus_def truthy_def)

lemma stored_entry_json_copy:
  "stored_entry (json_copy_completions c) k h =
     (case stored_entry c k h of Some Undefined \<Rightarrow> None | v \<Rightarrow> v)"
  by (auto simp: stored_entry_def json_copy_completions_def json_copy_day_def
      split: option.splits HabitStatus.splits)

lemma read_cell_json_copy: "read_cell (json_copy_completions c) k h = read_cell c k h"
  by (auto simp: read_cell_def json_copy_completions_def json_copy_day_def
      split: option.splits HabitStatus.splits)

section \<open>Snapshots\<close>

lemma length_pushToHistory_pos: "pushToHistory hs cs prev \<noteq> []"
  by (cases prev) (auto simp: pushToHistory_def Let_def)

lemma last_pushToHistory:
  "last (pushToHistory hs cs prev) =
     \<lparr>snap_habits = json_copy_habits hs, snap_completions = json_copy_completions cs\<rparr>"
  by (cases prev) (auto simp: pushToHistory_def Let_def)

lemma undo_after_push:
  assumes "history s' = pushToHistory hs cs prev"
  shows "habits (undo s') = hs"
    and "completions (undo s') = json_copy_completions cs"
    and "history (undo s') = butlast (history s')"
    and "length (history (undo s')) + 1 = length (history s')"
  using assms length_pushToHistory_pos [of hs cs prev]
  by (simp_all add: undo_def Let_def last_pushToHistory json_copy_habits_id)

lemma json_copy_completions_fixed:
  assumes "\<And>k h. stored_entry c k h \<noteq> Some Undefined"
  shows "json_copy_completions c = c"
proof (rule ext)
  fix k
  show "json_copy_completions c k = c k"
  proof (cases "c k")
    case None
    then show ?thesis by (simp add: json_copy_completions_def)
  next
    case (Some day)
    have "json_copy_day day = day"
    proof (rule ext)
      fix h
      from assms [of k h] Some have "day h \<noteq> Some Undefined"
        by (simp add: stored_entry_def)
      then show "json_copy_day day h = day h"
        by (simp add: json_copy_day_def split: option.splits HabitStatus.splits)
    qed
    with Some show ?thesis by (simp add: json_copy_completions_def)
  qed
qed

lemma history_mutations:
  "trim (newValue s) \<noteq> [] \<Longrightarrow>
     history (addHabit newId s) = pushToHistory (habits s) (completions s) (history s)"
  "trim (editValue s) \<noteq> [] \<Longrightarrow>
     history (saveEdit s) = pushToHistory (habits s) (completions s) (history s)"
  "history (deleteHabit i s) = pushToHistory (habits s) (completions s) (history s)"
  "history (cycleHabitState d h s) = pushToHistory (habits s) (completions s) (history s)"
  by (simp_all add: addHabit_def saveEdit_def deleteHabit_def cycleHabitState_def)

section \<open>Rounding to double precision\<close>

text \<open>
  The exponent found by \<open>ilog2\<close> is not above the number, so one rounding moves a
  positive number by at most the fraction \<open>2^-53\<close> of itself.
\<close>

lemma ilog2_lower:
  assumes "0 < x"
  shows "2 powi (ilog2 x) \<le> x"
proof -
  obtain a b where ab: "quotient_of x = (a, b)"
    by (cases "quotient_of x")
  have b: "0 < b"
    using ab quotient_of_denom_pos by blast
  have x: "x = of_int a / of_int b"
    using ab by (rule quotient_of_div)
  have a: "0 < a"
    using assms b x by (simp add: zero_less_divide_iff)
  define d where "d = bitlen a - bitlen b"
  show ?thesis
  proof (cases "2 powi d \<le> x")
    case True
    then show ?thesis
      by (simp add: ilog2_def ab d_def)
  next
    case False
    then have e: "ilog2 x = d - 1"
      by (simp add: ilog2_def ab d_def)
    have la: "1 \<le> bitlen a" and lb: "1 \<le> bitlen b"
      using a b by (simp_all add: bitlen_alt_def)
    have "2 ^ nat (bitlen a - 1) \<le> a"
      using bitlen_bounds [OF a] by simp
    then have "(of_int (2 ^ nat (bitlen a - 1)) :: rat) \<le> of_int a"
      by (simp only: of_int_le_iff)
    then have lo: "(2::rat) powi (bitlen a - 1) \<le> of_int a"
      using la by (simp add: power_int_def)
    have "b < 2 ^ nat (bitlen b)"
      using bitlen_bounds [OF b] by simp
    then have "(of_int b :: rat) < of_int (2 ^ nat (bitlen b))"
      by (simp only: of_int_less_iff)
    then have hi: "of_int b \<le> (2::rat) powi (bitlen b)"
      using lb by (simp add: power_int_def)
    have "(2::rat) powi (d - 1) = 2 powi (bitlen a - 1) / 2 powi (bitlen b)"
      by (simp add: d_def power_int_diff)
    also have "\<dots> \<le> of_int a / of_int b"
      using lo hi a b by (intro frac_le) simp_all
    finally show ?thesis
      using e x by simp
  qed
qed

lemma round_double_error:
  assumes "0 < x"
  shows "\<bar>round_double x - x\<bar> \<le> x / 2 ^ 53"
proof -
  define u :: rat where "u = 2 powi (ilog2 x - 52)"
  define q where "q = x / u"
  define n where "n = \<lfloor>q\<rfloor>"
  define r where "r = q - of_int n"
  define m where "m = (if r < 1 / 2 \<or> (r = 1 / 2 \<and> even n) then n else n + 1)"
  have u: "0 < u"
    by (simp add: u_def)
  have r: "0 \<le> r" "r < 1"
    unfolding r_def n_def by linarith+
  have rd: "round_double x = of_int m * u"
    using assms by (simp add: round_double_def Let_def u_def q_def n_def r_def m_def)
  have "\<bar>of_int m - q\<bar> \<le> 1 / 2"
    using r by (auto simp: m_def r_def)
  then have "\<bar>of_int m - q\<bar> * u \<le> (1 / 2) * u"
    using u by (intro mult_right_mono) simp_all
  moreover have "of_int m * u - x = (of_int m - q) * u"
    using u by (simp add: q_def algebra_simps)
  ultimately have "\<bar>round_double x - x\<bar> \<le> u / 2"
    using u by (simp add: rd abs_mult)
  also have "u / 2 = 2 powi (ilog2 x) / 2 ^ 53"
    by (simp add: u_def power_int_diff)
  also have "\<dots> \<le> x / 2 ^ 53"
    using ilog2_lower [OF assms] by (simp add: divide_right_mono)
  finally show ?thesis .
qed


lemma round_double_of_nat:
  assumes "k < 2 ^ 53"
  shows "round_double (of_nat k) = of_nat k"
proof (cases "k = 0")
  case True
  then show ?thesis by (simp add: round_double_def)
next
  case False
  define x :: rat where "x = of_nat k"
  have x: "0 < x"
    using False by (simp add: x_def)
  define e where "e = ilog2 x"
  have "x < 2 ^ 53"
    using assms unfolding x_def by (metis of_nat_less_iff of_nat_numeral of_nat_power)
  then have "(2::rat) powi e < 2 powi 53"
    using ilog2_lower [OF x] by (simp add: e_def)
  then have e: "e < 53"
    by (rule power_int_le_imp_less_exp [rotated]) simp_all
  define j where "j = nat (52 - e)"
  have "e - 52 = - int j"
    using e by (simp add: j_def)
  then have "(2::rat) powi (e - 52) = 2 powi (- int j)"
    by (simp only:)
  also have "\<dots> = inverse (2 powi int j)"
    by (rule power_int_minus)
  finally have u: "(2::rat) powi (e - 52) = 1 / 2 ^ j"
    by (simp add: divide_inverse)
  define q where "q = x / 2 powi (ilog2 x - 52)"
  define n where "n = \<lfloor>q\<rfloor>"
  define r where "r = q - of_int n"
  define m where "m = (if r < 1 / 2 \<or> (r = 1 / 2 \<and> even n) then n else n + 1)"
  have rd: "round_double x = of_int m * 2 powi (ilog2 x - 52)"
    using x by (simp add: round_double_def Let_def q_def n_def r_def m_def)
  have q: "q = of_int (int k * 2 ^ j)"
    using u by (simp add: q_def x_def e_def)
  then have n: "n = int k * 2 ^ j"
    unfolding n_def by (simp only: floor_of_int)
  with q have "r = 0"
    by (simp add: r_def)
  then have "m = n"
    by (simp add: m_def)
  with rd n u show ?thesis
    by (simp add: x_def e_def)
qed


lemma round_double_error_nonneg:
  assumes "0 \<le> x"
  shows "\<bar>round_double x - x\<bar> \<le> x / 2 ^ 53"
proof (cases "x = 0")
  case True
  then show ?thesis by (simp add: round_double_def)
next
  case False
  with assms have "0 < x" by simp
  then show ?thesis by (rule round_double_error)
qed

lemma percentage_of_error:
  assumes t: "0 < t" and ct: "c \<le> t"
  obtains z :: rat where "percentage_of c t = Num (of_int \<lfloor>z + 1 / 2\<rfloor>)"
    and "0 \<le> z" and "\<bar>z - 100 * (of_nat c / of_nat t)\<bar> \<le> 201 / 2 ^ 53"
proof -
  define x :: rat where "x = of_nat c / of_nat t"
  define y where "y = round_double x"
  define z where "z = round_double (y * 100)"
  define eps :: rat where "eps = 1 / 2 ^ 53"
  have eps: "0 \<le> eps" "eps \<le> 1 / 100"
    by (simp_all add: eps_def)
  have x: "0 \<le> x" "x \<le> 1"
    using t ct by (simp_all add: x_def)
  have "\<bar>y - x\<bar> \<le> x / 2 ^ 53"
    unfolding y_def using x(1) by (rule round_double_error_nonneg)
  then have ey: "\<bar>y - x\<bar> \<le> x * eps"
    by (simp add: eps_def)
  have d1: "x * eps \<le> x * 1" "x * eps \<le> 1 * eps"
    using x eps by (intro mult_left_mono mult_right_mono; linarith)+
  have y: "0 \<le> y" "y \<le> 1 + eps"
    using ey d1 x by linarith+
  have "\<bar>z - y * 100\<bar> \<le> y * 100 / 2 ^ 53"
    unfolding z_def using y(1) by (intro round_double_error_nonneg) simp
  then have ez: "\<bar>z - y * 100\<bar> \<le> (y * 100) * eps"
    by (simp add: eps_def)
  have d2: "(y * 100) * eps \<le> (y * 100) * 1" "(y * 100) * eps \<le> 101 * eps"
    using y eps by (intro mult_left_mono mult_right_mono; linarith)+
  have z: "0 \<le> z"
    using ez d2 y by linarith
  have "\<bar>z - 100 * x\<bar> \<le> 201 * eps"
    using ey ez d1 d2 by linarith
  then have "\<bar>z - 100 * (of_nat c / of_nat t)\<bar> \<le> 201 / 2 ^ 53"
    by (simp add: eps_def x_def)
  moreover have "percentage_of c t = Num (of_int \<lfloor>z + 1 / 2\<rfloor>)"
    using t by (simp add: percentage_of_def js_div_def x_def y_def z_def)
  ultimately show ?thesis
    using z that by blast
qed

lemma percentage_of_range:
  assumes "c \<le> t"
  obtains p :: nat where "percentage_of c t = Num (of_nat p)" and "p \<le> 100"
proof (cases "t = 0")
  case True
  then have "percentage_of c t = Num (of_nat 0)"
    by (simp add: percentage_of_def)
  then show ?thesis
    using that by blast
next
  case False
  then have t: "0 < t" by simp
  obtain z :: rat where pz: "percentage_of c t = Num (of_int \<lfloor>z + 1 / 2\<rfloor>)"
    and z0: "0 \<le> z" and ez: "\<bar>z - 100 * (of_nat c / of_nat t)\<bar> \<le> 201 / 2 ^ 53"
    using percentage_of_error [OF t assms] by blast
  have "(of_nat c / of_nat t :: rat) \<le> 1"
    using t assms by simp
  moreover have "(201 / 2 ^ 53 :: rat) \<le> 1 / 4"
    by simp
  ultimately have "z + 1 / 2 < 101"
    using ez by linarith
  then have "\<lfloor>z + 1 / 2\<rfloor> < 101"
    by (subst floor_less_iff) simp
  then have hi: "\<lfloor>z + 1 / 2\<rfloor> \<le> 100"
    by simp
  have lo: "0 \<le> \<lfloor>z + 1 / 2\<rfloor>"
    using z0 by simp
  define p where "p = nat \<lfloor>z + 1 / 2\<rfloor>"
  have "percentage_of c t = Num (of_nat p)"
    using lo by (simp add: pz p_def)
  moreover have "p \<le> 100"
    using hi unfolding p_def by linarith
  ultimately show ?thesis
    using that by blast
qed

lemma half_way_cases_int:
  "list_all (\<lambda>t. list_all (\<lambda>c. (200 * c + t) mod (2 * t) = 0 \<longrightarrow> (8 * c) mod t = 0) [0..t])
     [1..31::int]"
  by code_simp

lemma half_way_cases:
  fixes c t :: nat
  assumes "0 < t" "t \<le> 31" "c \<le> t" "(200 * c + t) mod (2 * t) = 0"
  shows "t dvd 8 * c"
proof -
  have "(200 * int c + int t) mod (2 * int t) = int ((200 * c + t) mod (2 * t))"
    by (simp add: zmod_int)
  then have "(200 * int c + int t) mod (2 * int t) = 0"
    using assms(4) by simp
  moreover have "int t \<in> set [1..31]" "int c \<in> set [0..int t]"
    using assms by simp_all
  ultimately have "(8 * int c) mod int t = 0"
    using half_way_cases_int [unfolded list_all_iff, THEN bspec, THEN bspec, of "int t" "int c"]
    by (simp only:)
  moreover have "(8 * int c) mod int t = int ((8 * c) mod t)"
    by (simp add: zmod_int)
  ultimately have "(8 * c) mod t = 0"
    by simp
  then show ?thesis
    by (simp add: dvd_eq_mod_eq_0)
qed

lemma percentage_of_eighths:
  "list_all (\<lambda>j. Math_round (js_mul (Num (round_double (of_nat j / 8))) 100)
                   = Num (of_nat ((25 * j + 1) div 2))) [0..<9]"
  by code_simp

lemma percentage_of_half_up:
  assumes t: "0 < t" "t \<le> 31" and ct: "c \<le> t"
  shows "percentage_of c t = Num (of_nat ((200 * c + t) div (2 * t)))"
proof (cases "(200 * c + t) mod (2 * t) = 0")
  case True
  with t ct have "t dvd 8 * c"
    by (rule half_way_cases)
  then obtain j where j: "8 * c = t * j"
    by (rule dvdE)
  have j8: "j \<le> 8"
  proof (rule ccontr)
    assume "\<not> j \<le> 8"
    then have "t * 9 \<le> t * j"
      by (intro mult_left_mono) simp_all
    with j ct t(1) show False
      by linarith
  qed
  have "(of_nat 8 * of_nat c :: rat) = of_nat t * of_nat j"
    using j by (metis of_nat_mult)
  then have x: "(of_nat c / of_nat t :: rat) = of_nat j / 8"
    using t(1) by (simp add: field_simps)
  have "200 * c = 25 * (8 * c)"
    by simp
  also have "\<dots> = 25 * (t * j)"
    by (simp only: j)
  finally have "200 * c + t = (25 * j + 1) * t"
    by (simp add: algebra_simps)
  then have "(200 * c + t) div (2 * t) = ((25 * j + 1) * t) div (2 * t)"
    by (simp only:)
  also have "\<dots> = (25 * j + 1) div 2"
    using t(1) by (intro div_mult_mult2) simp
  finally have d: "(200 * c + t) div (2 * t) = (25 * j + 1) div 2" .
  have "j \<in> set [0..<9]"
    using j8 by simp
  then have "Math_round (js_mul (Num (round_double (of_nat j / 8))) 100)
      = Num (of_nat ((25 * j + 1) div 2))"
    by (rule percentage_of_eighths [unfolded list_all_iff, rule_format])
  then show ?thesis
    using t(1) by (simp add: percentage_of_def js_div_def x d)
next
  case False
  define N where "N = 200 * c + t"
  define k where "k = N div (2 * t)"
  define rm where "rm = N mod (2 * t)"
  have N: "N = 2 * t * k + rm"
    by (simp add: k_def rm_def)
  have rm: "1 \<le> rm" "rm < 2 * t"
    using False t(1) by (simp_all add: rm_def N_def)
  define x :: rat where "x = of_nat c / of_nat t"
  obtain z :: rat where pz: "percentage_of c t = Num (of_int \<lfloor>z + 1 / 2\<rfloor>)"
    and ez: "\<bar>z - 100 * x\<bar> \<le> 201 / 2 ^ 53"
    using percentage_of_error [OF t(1) ct] unfolding x_def by blast
  define f :: rat where "f = of_nat rm / of_nat (2 * t)"
  have "100 * x + 1 / 2 = of_nat N / of_nat (2 * t)"
    using t(1) by (simp add: x_def N_def field_simps)
  also have "\<dots> = of_nat k + of_nat rm / of_nat (2 * t)"
    using t(1) by (simp add: N field_simps)
  finally have w: "100 * x + 1 / 2 = of_int (int k) + f"
    by (simp add: f_def)
  have lo: "1 / 62 \<le> f"
    unfolding f_def using rm t by (intro frac_le) simp_all
  have "(1 / 62 :: rat) \<le> of_nat (2 * t - rm) / of_nat (2 * t)"
    using rm t by (intro frac_le) simp_all
  moreover have "(of_nat (2 * t - rm) / of_nat (2 * t) :: rat) = 1 - f"
    using rm t(1) by (simp add: f_def of_nat_diff field_simps)
  ultimately have hi: "f \<le> 1 - 1 / 62"
    by linarith
  define eps :: rat where "eps = 201 / 2 ^ 53"
  have eps: "eps \<le> 1 / 100"
    by (simp add: eps_def)
  have ez': "\<bar>z - 100 * x\<bar> \<le> eps"
    using ez by (simp only: eps_def)
  have "of_int (int k) \<le> z + 1 / 2" "z + 1 / 2 < of_int (int k) + 1"
    using w lo hi ez' eps by linarith+
  then have "\<lfloor>z + 1 / 2\<rfloor> = int k"
    by (intro floor_unique)
  then show ?thesis
    by (simp add: pz k_def N_def)
qed

section \<open>Counting\<close>

lemma tri_state_Done: "tri_state v = Done \<longleftrightarrow> v = SBool True"
  by (cases v rule: tri_state.cases) simp_all

lemma tri_state_SkippedDay: "tri_state v = SkippedDay \<longleftrightarrow> v = Skipped"
  by (cases v rule: tri_state.cases) simp_all

lemma fold_tally_count:
  "fold (\<lambda>x. tally (g x)) xs (a, b) =
     (a + length (filter (\<lambda>x. tri_state (g x) = Done) xs),
      b + length (filter (\<lambda>x. tri_state (g x) \<noteq> SkippedDay) xs))"
  by (induction xs arbitrary: a b) (auto simp: tally_def tri_state_Done tri_state_SkippedDay)

lemma length_filter_Done_le:
  "length (filter (\<lambda>x. tri_state (g x) = Done) xs)
     \<le> length (filter (\<lambda>x. tri_state (g x) \<noteq> SkippedDay) xs)"
  by (induction xs) auto

lemma tally_habits_count:
  "tally_habits hs c d (a, b) =
     (a + length (filter (\<lambda>x. cell_state c (format_yyyy_MM_dd d) (habit_id x) = Done) hs),
      b + length (filter (\<lambda>x. cell_state c (format_yyyy_MM_dd d) (habit_id x) \<noteq> SkippedDay) hs))"
  unfolding tally_habits_def cell_state_def by (rule fold_tally_count)

lemma tally_habits_le:
  assumes "fst acc \<le> snd acc"
  shows "fst (tally_habits hs c d acc) \<le> snd (tally_habits hs c d acc)"
proof -
  obtain a b where acc: "acc = (a, b)" by (cases acc)
  show ?thesis
    using assms length_filter_Done_le [of "\<lambda>x. read_cell c (format_yyyy_MM_dd d) (habit_id x)" hs]
    by (simp add: acc tally_habits_count cell_state_def)
qed

lemma fold_tally_habits_le:
  assumes "fst acc \<le> snd acc"
  shows "fst (fold (tally_habits hs c) days acc) \<le> snd (fold (tally_habits hs c) days acc)"
  using assms by (induction days arbitrary: acc) (simp_all add: tally_habits_le)

lemma getHabitStats_counts:
  "stats_count (getHabitStats days c h)
     = length (filter (\<lambda>d. cell_state c (format_yyyy_MM_dd d) h = Done) days)"
  "stats_total (getHabitStats days c h)
     = length (filter (\<lambda>d. cell_state c (format_yyyy_MM_dd d) h \<noteq> SkippedDay) days)"
  "stats_percentage (getHabitStats days c h)
     = percentage_of (stats_count (getHabitStats days c h)) (stats_total (getHabitStats days c h))"
  by (simp_all add: getHabitStats_def cell_state_def
      fold_tally_count [of "\<lambda>d. read_cell c (format_yyyy_MM_dd d) h"])

lemma half_up_floor:
  fixes c t :: nat
  assumes "0 < t"
  shows "\<lfloor>100 * (of_nat c :: rat) / of_nat t + 1 / 2\<rfloor> = int ((200 * c + t) div (2 * t))"
proof -
  have "100 * (of_nat c :: rat) / of_nat t + 1 / 2 = of_nat (200 * c + t) / of_nat (2 * t)"
    using assms by (simp add: field_simps)
  then show ?thesis
    by (simp only: floor_divide_of_nat_eq)
qed

lemma format_sample_days:
  "format_yyyy_MM_dd sample_day = ''2024-01-01''"
  "format_yyyy_MM_dd second_day = ''2024-01-02''"
  by code_simp+

text \<open>
  Beyond 31 the rounded double can fall below the half-up value: 23 of 40 is 57.5, and
  the computation gives 57.
\<close>

lemma percentage_of_23_40: "percentage_of 23 40 = Num 57"
  by code_simp

text \<open>The rollups read the log only at the ids of the habits they are given.\<close>

lemma tally_habits_cong:
  assumes "\<And>x. x \<in> set hs \<Longrightarrow>
    read_cell c1 (format_yyyy_MM_dd d) (habit_id x) = read_cell c2 (format_yyyy_MM_dd d) (habit_id x)"
  shows "tally_habits hs c1 d = tally_habits hs c2 d"
proof (rule ext)
  fix acc
  show "tally_habits hs c1 d acc = tally_habits hs c2 d acc"
    unfolding tally_habits_def by (rule fold_cong) (simp_all add: assms)
qed

lemma rollups_cong:
  assumes "\<And>k x. x \<in> set hs \<Longrightarrow> read_cell c1 k (habit_id x) = read_cell c2 k (habit_id x)"
  shows "dailyProgressData days hs c1 = dailyProgressData days hs c2"
    and "monthlyOverallStats days hs c1 = monthlyOverallStats days hs c2"
    and "yearlyStats now cd hs c1 = yearlyStats now cd hs c2"
proof -
  have "tally_habits hs c1 d = tally_habits hs c2 d" for d
    by (rule tally_habits_cong) (rule assms)
  then have "tally_habits hs c1 = tally_habits hs c2"
    by (rule ext)
  then show "dailyProgressData days hs c1 = dailyProgressData days hs c2"
    and "monthlyOverallStats days hs c1 = monthlyOverallStats days hs c2"
    and "yearlyStats now cd hs c1 = yearlyStats now cd hs c2"
    by (simp_all add: dailyProgressData_def monthlyOverallStats_def yearlyStats_def yearlyMonth_def)
qed

section \<open>Range of the percentages\<close>

lemma is_percentage_of_nat: "p \<le> 100 \<Longrightarrow> is_percentage (Num (of_nat p))"
  by (simp add: is_percentage_def)

lemma is_percentage_percentage_of:
  assumes "c \<le> t"
  shows "is_percentage (percentage_of c t)"
proof -
  obtain p :: nat where "percentage_of c t = Num (of_nat p)" "p \<le> 100"
    using percentage_of_range [OF assms] by blast
  then show ?thesis
    by (simp add: is_percentage_of_nat)
qed

lemma is_percentage_complement:
  assumes "c \<le> t"
  shows "is_percentage (js_sub_from 100 (percentage_of c t))"
proof -
  obtain p :: nat where p: "percentage_of c t = Num (of_nat p)" "p \<le> 100"
    using percentage_of_range [OF assms] by blast
  have d: "(100 - of_nat p :: rat) = of_nat (100 - p)"
    using p(2) by (simp add: of_nat_diff)
  have "100 - p < 2 ^ 53"
  proof -
    have "100 - p \<le> 100" by simp
    also have "(100::nat) < 2 ^ 53" by simp
    finally show ?thesis .
  qed
  then have e: "round_double (of_nat (100 - p)) = of_nat (100 - p)"
    by (rule round_double_of_nat)
  have "js_sub_from 100 (percentage_of c t) = Num (round_double (100 - of_nat p))"
    by (simp only: p(1) js_sub_from.simps)
  also have "\<dots> = Num (of_nat (100 - p))"
    by (simp only: d e)
  finally show ?thesis
    by (simp only: is_percentage_of_nat diff_le_self)
qed

lemma tally_habits_start_le:
  "fst (tally_habits hs c d (0, 0)) \<le> snd (tally_habits hs c d (0, 0))"
  by (rule tally_habits_le) simp

lemma fold_tally_habits_start_le:
  "fst (fold (tally_habits hs c) days (0, 0)) \<le> snd (fold (tally_habits hs c) days (0, 0))"
  by (rule fold_tally_habits_le) simp

lemma getHabitStats_count_le:
  "stats_count (getHabitStats days c h) \<le> stats_total (getHabitStats days c h)"
  unfolding getHabitStats_counts cell_state_def by (rule length_filter_Done_le)

lemma day_percentage_eq:
  "day_percentage (dailyProgressData days hs c ! n) =
     percentage_of (fst (tally_habits hs c (days ! n) (0, 0))) (snd (tally_habits hs c (days ! n) (0, 0)))"
  if "n < length days"
  using that by (simp add: dailyProgressData_def split: prod.splits)

lemma monthlyOverallStats_eq:
  "completed (monthlyOverallStats days hs c) =
     percentage_of (fst (fold (tally_habits hs c) days (0, 0))) (snd (fold (tally_habits hs c) days (0, 0)))"
  "incomplete (monthlyOverallStats days hs c) =
     (if snd (fold (tally_habits hs c) days (0, 0)) = 0 then Num 0
      else js_sub_from 100 (percentage_of (fst (fold (tally_habits hs c) days (0, 0)))
                                           (snd (fold (tally_habits hs c) days (0, 0)))))"
  by (simp_all add: monthlyOverallStats_def split: prod.splits)

lemma yearlyMonth_eq:
  "month_percentage (yearlyMonth now hs c y i) =
     percentage_of (month_totalCompleted (yearlyMonth now hs c y i))
                   (month_totalPossible (yearlyMonth now hs c y i))"
  "month_totalCompleted (yearlyMonth now hs c y i) =
     fst (fold (tally_habits hs c) (eachDayOfMonth (new_Date y i 1)) (0, 0))"
  "month_totalPossible (yearlyMonth now hs c y i) =
     snd (fold (tally_habits hs c) (eachDayOfMonth (new_Date y i 1)) (0, 0))"
  by (simp_all add: yearlyMonth_def Let_def split: prod.splits)

lemma length_rollups:
  "length (dailyProgressData days hs c) = length days"
  "length (yearlyStats now cd hs c) = 12"
  by (simp_all add: dailyProgressData_def yearlyStats_def)

lemma percentage_of_1_15: "percentage_of (Suc 0) 15 = Num 7"
  by (subst percentage_of_half_up) simp_all

text \<open>Without the guard on the denominator, an empty count would give \<open>NaN\<close>.\<close>

lemma unguarded_zero_over_zero: "Math_round (js_mul (js_div 0 0) 100) = NaN"
  by (simp add: js_div_def)

lemma tally_habits_all_skipped:
  assumes "\<forall>x \<in> set hs. cell_state c (format_yyyy_MM_dd d) (habit_id x) = SkippedDay"
  shows "tally_habits hs c d acc = acc"
proof -
  obtain a b where acc: "acc = (a, b)" by (cases acc)
  have "filter (\<lambda>x. cell_state c (format_yyyy_MM_dd d) (habit_id x) = Done) hs = []"
    "filter (\<lambda>x. cell_state c (format_yyyy_MM_dd d) (habit_id x) \<noteq> SkippedDay) hs = []"
    using assms by (simp_all add: filter_empty_conv)
  then show ?thesis
    by (simp add: acc tally_habits_count)
qed

lemma fold_tally_habits_all_skipped:
  assumes "\<forall>d \<in> set days. \<forall>x \<in> set hs. cell_state c (format_yyyy_MM_dd d) (habit_id x) = SkippedDay"
  shows "fold (tally_habits hs c) days acc = acc"
  using assms by (induction days arbitrary: acc) (simp_all add: tally_habits_all_skipped)

text \<open>Every month has at most 31 days.\<close>

lemma length_eachDayOfMonth: "length (eachDayOfMonth d) \<le> 31"
  by (simp add: eachDayOfMonth_def days_in_month_def)

lemma length_daysInMonth: "length (daysInMonth s) \<le> 31"
  unfolding daysInMonth_def by (rule length_eachDayOfMonth)

lemma length_january: "length (daysInMonth (initial_state sample_day)) = 31"
  by (simp add: daysInMonth_def eachDayOfMonth_def days_in_month_def initial_state_def
      sample_day_def)

section \<open>The cycle operation\<close>




text \<open>
  C3 (as amended). Cycling a cell that is Skipped stores the value \<open>undefined\<close> under its
  date key and habit id: the entry stays and reads as Unset. No call of the cycle
  operation removes an entry. The JSON copy of a log, which is what a snapshot and the
  saved payload hold, has no entry whose value is \<open>undefined\<close> and reads the same in
  every cell.
\<close>

theorem unset_representation:
  "(read_cell c k h = Skipped \<longrightarrow>
      stored_entry (cycle_completions k h c) k h = Some Undefined
      \<and> cell_state (cycle_completions k h c) k h = Unset)
   \<and> (stored_entry c k' h' \<noteq> None \<longrightarrow> stored_entry (cycle_completions k h c) k' h' \<noteq> None)
   \<and> stored_entry (json_copy_completions c) k' h' \<noteq> Some Undefined
   \<and> read_cell (json_copy_completions c) k' h' = read_cell c k' h'"
  by (auto simp: stored_entry_cycle stored_entry_json_copy read_cell_json_copy cell_state_def
      read_cell_cycle nextStatus_def truthy_def split: option.splits HabitStatus.splits)

theorem unset_representation_witness:
  "read_cell skipped_log ''2024-01-01'' ''1'' = Skipped
   \<and> stored_entry skipped_log ''2024-01-01'' ''1'' \<noteq> None
   \<and> stored_entry (cycle_completions ''2024-01-01'' ''1'' skipped_log) ''2024-01-01'' ''1''
       = Some Undefined
   \<and> stored_entry (json_copy_completions (cycle_completions ''2024-01-01'' ''1'' skipped_log))
       ''2024-01-01'' ''1'' = None"
proof -
  have a: "read_cell skipped_log ''2024-01-01'' ''1'' = Skipped"
    by (simp add: skipped_log_def read_cell_def)
  have b: "stored_entry skipped_log ''2024-01-01'' ''1'' \<noteq> None"
    by (simp add: skipped_log_def stored_entry_def)
  have c: "stored_entry (json_copy_completions (cycle_completions ''2024-01-01'' ''1'' skipped_log))
       ''2024-01-01'' ''1'' = None"
    by (simp add: stored_entry_json_copy stored_entry_cycle a nextStatus_def truthy_def)
  show ?thesis
    using unset_representation [of skipped_log "''2024-01-01''" "''1''" "''2024-01-01''" "''1''"] a b c
    by simp
qed

text \<open>
  C3 as it is written fails: after three calls on one cell of the empty log, the log
  holds an entry for that cell whose stored value is \<open>undefined\<close>.
\<close>

theorem unset_materialized_counterexample:
  "stored_entry (completions thrice_cycled) (format_yyyy_MM_dd sample_day) ''1'' = Some Undefined"
  by (rule stored_entry_thrice_cycled)

section \<open>The undo buffer\<close>

text \<open>
  C5. A push onto a buffer of at most 50 snapshots leaves at most 50. A push onto a
  buffer of exactly 50 leaves exactly 50: the oldest snapshot (index 0) is gone, the
  other 49 keep their order, and the new snapshot is last.
\<close>

theorem pushToHistory_capacity:
  "(length prev \<le> 50 \<longrightarrow> length (pushToHistory hs cs prev) \<le> 50)
   \<and> (length prev = 50 \<longrightarrow>
        length (pushToHistory hs cs prev) = 50
        \<and> pushToHistory hs cs prev =
            tl prev @ [\<lparr>snap_habits = json_copy_habits hs,
                        snap_completions = json_copy_completions cs\<rparr>])"
  by (cases prev) (auto simp: pushToHistory_def Let_def)

theorem pushToHistory_capacity_witness:
  "length (replicate 50 empty_snapshot) = 50
   \<and> length (pushToHistory INITIAL_HABITS Map.empty (replicate 50 empty_snapshot)) = 50
   \<and> pushToHistory INITIAL_HABITS Map.empty (replicate 50 empty_snapshot) =
       replicate 49 empty_snapshot @
         [\<lparr>snap_habits = json_copy_habits INITIAL_HABITS,
           snap_completions = json_copy_completions Map.empty\<rparr>]"
proof -
  have "tl (replicate 50 empty_snapshot) = replicate 49 empty_snapshot"
    by (simp add: tl_replicate)
  then show ?thesis
    using pushToHistory_capacity [of "replicate 50 empty_snapshot" INITIAL_HABITS Map.empty]
    by simp
qed

text \<open>
  C4 (as amended). Each mutation that goes through (\<open>addHabit\<close> and \<open>saveEdit\<close> with a
  non-blank text, \<open>deleteHabit\<close>, \<open>cycleHabitState\<close>) pushes a JSON copy of the habits
  and completions it started from. An undo right after it restores the habits exactly,
  restores the completions to their JSON copy (which reads the same in every cell, and is
  the same log when no entry stores \<open>undefined\<close>), and shortens the history by one.
\<close>

theorem undo_after_mutation:
  assumes "(s' = addHabit newId s \<and> trim (newValue s) \<noteq> [])
         \<or> (s' = saveEdit s \<and> trim (editValue s) \<noteq> [])
         \<or> s' = deleteHabit i s
         \<or> s' = cycleHabitState d h s"
  shows "history s' = pushToHistory (habits s) (completions s) (history s)
       \<and> habits (undo s') = habits s
       \<and> completions (undo s') = json_copy_completions (completions s)
       \<and> (\<forall>k c. read_cell (completions (undo s')) k c = read_cell (completions s) k c)
       \<and> ((\<forall>k c. stored_entry (completions s) k c \<noteq> Some Undefined) \<longrightarrow>
            completions (undo s') = completions s)
       \<and> history (undo s') = butlast (history s')
       \<and> length (history (undo s')) + 1 = length (history s')"
proof -
  from assms have push: "history s' = pushToHistory (habits s) (completions s) (history s)"
    by (auto simp: history_mutations)
  note u = undo_after_push [OF push]
  have "completions (undo s') = completions s"
    if "\<forall>k c. stored_entry (completions s) k c \<noteq> Some Undefined"
    using that u(2) json_copy_completions_fixed [of "completions s"] by simp
  with push u show ?thesis
    by (simp add: read_cell_json_copy)
qed

theorem undo_after_mutation_witness:
  "habits (undo (deleteHabit ''1'' (initial_state sample_day))) = INITIAL_HABITS
   \<and> completions (undo (deleteHabit ''1'' (initial_state sample_day))) = Map.empty
   \<and> history (undo (deleteHabit ''1'' (initial_state sample_day))) = []
   \<and> length (history (deleteHabit ''1'' (initial_state sample_day))) = 1"
proof -
  let ?s = "initial_state sample_day"
  have e: "\<forall>k c. stored_entry (completions ?s) k c \<noteq> Some Undefined"
    by (simp add: stored_entry_def initial_state_def)
  have r: "habits (undo (deleteHabit ''1'' ?s)) = habits ?s
      \<and> completions (undo (deleteHabit ''1'' ?s)) = completions ?s
      \<and> history (undo (deleteHabit ''1'' ?s)) = butlast (history (deleteHabit ''1'' ?s))
      \<and> length (history (undo (deleteHabit ''1'' ?s))) + 1 = length (history (deleteHabit ''1'' ?s))"
    using undo_after_mutation [of "deleteHabit ''1'' ?s" "''x''" ?s "''1''" sample_day "''1''"] e
    by blast
  have h: "length (history (deleteHabit ''1'' ?s)) = 1"
    by (simp add: deleteHabit_def initial_state_def pushToHistory_def)
  have i: "habits ?s = INITIAL_HABITS" "completions ?s = Map.empty"
    by (simp_all add: initial_state_def)
  from r h have "length (history (undo (deleteHabit ''1'' ?s))) = 0"
    by linarith
  then have "history (undo (deleteHabit ''1'' ?s)) = []"
    by simp
  with r h i show ?thesis
    by simp
qed

text \<open>
  C4 as it is written fails: the log of \<open>thrice_cycled\<close> holds an entry with the value
  \<open>undefined\<close>; after one more mutation and an undo the log no longer has that entry.
\<close>

theorem undo_not_exact_counterexample:
  "four_times_cycled = cycleHabitState sample_day ''1'' thrice_cycled
   \<and> completions (undo four_times_cycled) \<noteq> completions thrice_cycled"
proof -
  have "history four_times_cycled =
      pushToHistory (habits thrice_cycled) (completions thrice_cycled) (history thrice_cycled)"
    by (simp add: four_times_cycled_def history_mutations)
  then have "completions (undo four_times_cycled) = json_copy_completions (completions thrice_cycled)"
    by (rule undo_after_push)
  then have "stored_entry (completions (undo four_times_cycled)) (format_yyyy_MM_dd sample_day) ''1''
      = None"
    by (simp add: stored_entry_json_copy stored_entry_thrice_cycled)
  then have "completions (undo four_times_cycled) \<noteq> completions thrice_cycled"
    using stored_entry_thrice_cycled by auto
  then show ?thesis by (simp add: four_times_cycled_def)
qed

section \<open>Renaming and deleting\<close>




text \<open>
  C7. \<open>deleteHabit\<close> keeps, in order, exactly the habits whose id is not the given one,
  and leaves the completion log as it is. The daily, monthly and yearly rollups computed
  after it do not depend on what the log holds under the deleted id: any log that reads
  the same in the cells of the other ids gives the same rollups.
\<close>

theorem deleteHabit_frame:
  "completions (deleteHabit i s) = completions s
   \<and> habits (deleteHabit i s) = filter (\<lambda>x. habit_id x \<noteq> i) (habits s)
   \<and> i \<notin> habit_id ` set (habits (deleteHabit i s))
   \<and> ((\<forall>k x. x \<noteq> i \<longrightarrow> read_cell c' k x = read_cell (completions s) k x) \<longrightarrow>
        dailyProgressData days (habits (deleteHabit i s)) (completions (deleteHabit i s))
          = dailyProgressData days (habits (deleteHabit i s)) c'
        \<and> monthlyOverallStats days (habits (deleteHabit i s)) (completions (deleteHabit i s))
          = monthlyOverallStats days (habits (deleteHabit i s)) c'
        \<and> yearlyStats now cd (habits (deleteHabit i s)) (completions (deleteHabit i s))
          = yearlyStats now cd (habits (deleteHabit i s)) c')"
proof -
  have h: "habits (deleteHabit i s) = filter (\<lambda>x. habit_id x \<noteq> i) (habits s)"
    and c: "completions (deleteHabit i s) = completions s"
    by (simp_all add: deleteHabit_def)
  have "dailyProgressData days (habits (deleteHabit i s)) (completions s)
          = dailyProgressData days (habits (deleteHabit i s)) c'
      \<and> monthlyOverallStats days (habits (deleteHabit i s)) (completions s)
          = monthlyOverallStats days (habits (deleteHabit i s)) c'
      \<and> yearlyStats now cd (habits (deleteHabit i s)) (completions s)
          = yearlyStats now cd (habits (deleteHabit i s)) c'"
    if "\<forall>k x. x \<noteq> i \<longrightarrow> read_cell c' k x = read_cell (completions s) k x"
  proof -
    have "read_cell (completions s) k (habit_id x) = read_cell c' k (habit_id x)"
      if "x \<in> set (habits (deleteHabit i s))" for k x
      using that \<open>\<forall>k x. x \<noteq> i \<longrightarrow> read_cell c' k x = read_cell (completions s) k x\<close>
      by (simp add: h)
    then show ?thesis
      by (intro conjI rollups_cong)
  qed
  with h c show ?thesis
    by auto
qed

theorem deleteHabit_frame_witness:
  "completions (deleteHabit ''1'' orphan_state) = orphan_log
   \<and> stored_entry (completions (deleteHabit ''1'' orphan_state)) ''2024-01-01'' ''1'' = Some (SBool True)
   \<and> habits (deleteHabit ''1'' orphan_state) = tl INITIAL_HABITS
   \<and> monthlyOverallStats (eachDayOfMonth sample_day) (habits (deleteHabit ''1'' orphan_state))
         (completions (deleteHabit ''1'' orphan_state))
       = monthlyOverallStats (eachDayOfMonth sample_day) (habits (deleteHabit ''1'' orphan_state))
           pruned_log
   \<and> dailyProgressData (eachDayOfMonth sample_day) (habits (deleteHabit ''1'' orphan_state))
         (completions (deleteHabit ''1'' orphan_state))
       = dailyProgressData (eachDayOfMonth sample_day) (habits (deleteHabit ''1'' orphan_state))
           pruned_log
   \<and> yearlyStats sample_day sample_day (habits (deleteHabit ''1'' orphan_state))
         (completions (deleteHabit ''1'' orphan_state))
       = yearlyStats sample_day sample_day (habits (deleteHabit ''1'' orphan_state)) pruned_log"
proof -
  have a: "\<forall>k x. x \<noteq> ''1'' \<longrightarrow> read_cell pruned_log k x = read_cell (completions orphan_state) k x"
    by (simp add: read_cell_def pruned_log_def orphan_log_def orphan_state_def)
  have b: "completions orphan_state = orphan_log" "habits orphan_state = INITIAL_HABITS"
    by (simp_all add: orphan_state_def initial_state_def)
  have c: "stored_entry orphan_log ''2024-01-01'' ''1'' = Some (SBool True)"
    by (simp add: stored_entry_def orphan_log_def)
  have d: "filter (\<lambda>x. habit_id x \<noteq> ''1'') INITIAL_HABITS = tl INITIAL_HABITS"
    by (simp add: INITIAL_HABITS_def)
  note r = deleteHabit_frame [of "''1''" orphan_state pruned_log "eachDayOfMonth sample_day"
      sample_day sample_day]
  from r have g1: "completions (deleteHabit ''1'' orphan_state) = orphan_log"
    by (simp add: b)
  from g1 c
  have g2: "stored_entry (completions (deleteHabit ''1'' orphan_state)) ''2024-01-01'' ''1''
      = Some (SBool True)"
    by simp
  from r have "habits (deleteHabit ''1'' orphan_state)
      = filter (\<lambda>x. habit_id x \<noteq> ''1'') INITIAL_HABITS"
    by (simp add: b)
  with d have g3: "habits (deleteHabit ''1'' orphan_state) = tl INITIAL_HABITS"
    by simp
  from r a g1 g2 g3 show ?thesis
    by blast
qed

section \<open>Percentages\<close>

text \<open>
  C1. For every habit id, completion log and list of at most 31 days (every month is
  one), \<open>getHabitStats\<close> counts as eligible the days whose status is not Skipped (an
  Unset day is eligible and not completed), counts as completed the days whose status is
  Done, and returns 0 when no day is eligible and otherwise 100 * completed / eligible
  rounded to the nearest integer, a half going up: the double-precision computation
  \<open>Math.round((count / total) * 100)\<close> gives exactly that. One Done day out of two
  gives 50.
\<close>

theorem getHabitStats_percentage:
  assumes "length days \<le> 31"
  shows "stats_total (getHabitStats days c h)
           = length (filter (\<lambda>d. cell_state c (format_yyyy_MM_dd d) h \<noteq> SkippedDay) days)
       \<and> stats_count (getHabitStats days c h)
           = length (filter (\<lambda>d. cell_state c (format_yyyy_MM_dd d) h = Done) days)
       \<and> stats_percentage (getHabitStats days c h)
           = (if stats_total (getHabitStats days c h) = 0 then Num 0
              else Num (of_int \<lfloor>100 * (of_nat (stats_count (getHabitStats days c h)) :: rat)
                                  / of_nat (stats_total (getHabitStats days c h)) + 1 / 2\<rfloor>))"
proof -
  define cnt where "cnt = stats_count (getHabitStats days c h)"
  define tot where "tot = stats_total (getHabitStats days c h)"
  have le: "cnt \<le> tot"
    unfolding cnt_def tot_def getHabitStats_counts cell_state_def
    by (rule length_filter_Done_le)
  have "tot \<le> length days"
    unfolding tot_def getHabitStats_counts by (rule length_filter_le)
  with assms have tot: "tot \<le> 31" by simp
  have "percentage_of cnt tot =
      (if tot = 0 then Num 0 else Num (of_int \<lfloor>100 * (of_nat cnt :: rat) / of_nat tot + 1 / 2\<rfloor>))"
  proof (cases "tot = 0")
    case True
    then show ?thesis by (simp add: percentage_of_def)
  next
    case False
    then have "percentage_of cnt tot = Num (of_nat ((200 * cnt + tot) div (2 * tot)))"
      using tot le by (intro percentage_of_half_up) simp_all
    with False show ?thesis
      by (simp add: half_up_floor)
  qed
  then show ?thesis
    using getHabitStats_counts [of days c h] by (simp add: cnt_def tot_def)
qed

theorem getHabitStats_percentage_witness:
  "length two_days \<le> 31
   \<and> stats_count (getHabitStats two_days scenario_log ''1'') = 1
   \<and> stats_total (getHabitStats two_days scenario_log ''1'') = 2
   \<and> stats_percentage (getHabitStats two_days scenario_log ''1'') = Num 50
   \<and> length (daysInMonth (initial_state sample_day)) \<le> 31
   \<and> stats_total (getHabitStats (daysInMonth (initial_state sample_day)) Map.empty ''1'') = 31
   \<and> stats_percentage (getHabitStats (daysInMonth (initial_state sample_day)) Map.empty ''1'')
       = Num 0"
proof -
  have l: "length two_days \<le> 31"
    by (simp add: two_days_def)
  have s: "cell_state scenario_log ''2024-01-01'' ''1'' = Done"
    "cell_state scenario_log ''2024-01-02'' ''1'' = Unset"
    by (simp_all add: cell_state_def read_cell_def scenario_log_def)
  have c: "length (filter (\<lambda>d. cell_state scenario_log (format_yyyy_MM_dd d) ''1'' = Done) two_days) = 1"
    "length (filter (\<lambda>d. cell_state scenario_log (format_yyyy_MM_dd d) ''1'' \<noteq> SkippedDay) two_days) = 2"
    by (simp_all add: two_days_def format_sample_days s)
  have r: "\<lfloor>100 * (of_nat 1 :: rat) / of_nat 2 + 1 / 2\<rfloor> = 50"
    by (subst half_up_floor) simp_all
  have a: "stats_count (getHabitStats two_days scenario_log ''1'') = 1
      \<and> stats_total (getHabitStats two_days scenario_log ''1'') = 2
      \<and> stats_percentage (getHabitStats two_days scenario_log ''1'') = Num 50"
    using getHabitStats_percentage [OF l, of scenario_log "''1''"] r
    by (simp only: c) simp
  let ?m = "daysInMonth (initial_state sample_day)"
  have e: "cell_state Map.empty k h = Unset" for k h
    by (simp add: cell_state_def read_cell_def)
  have m: "length ?m \<le> 31"
    by (rule length_daysInMonth)
  have f: "length (filter (\<lambda>d. cell_state Map.empty (format_yyyy_MM_dd d) ''1'' = Done) ?m) = 0"
    "length (filter (\<lambda>d. cell_state Map.empty (format_yyyy_MM_dd d) ''1'' \<noteq> SkippedDay) ?m) = 31"
    by (simp_all add: e length_january)
  have z: "\<lfloor>100 * (of_nat 0 :: rat) / of_nat 31 + 1 / 2\<rfloor> = 0"
    by (subst half_up_floor) simp_all
  have b: "stats_total (getHabitStats ?m Map.empty ''1'') = 31
      \<and> stats_percentage (getHabitStats ?m Map.empty ''1'') = Num 0"
    using getHabitStats_percentage [OF m, of Map.empty "''1''"] z
    by (simp only: f) simp
  from l a m b show ?thesis
    by (intro conjI) blast+
qed

text \<open>
  C8. Where the number of eligible cells is 0, every percentage is 0: the shared
  expression returns 0 for a zero denominator, and so do the per-habit, daily, monthly
  and yearly statistics, in particular for an empty habit list, an empty list of days,
  and cells that are all Skipped. The result is the number 0, never \<open>NaN\<close>.
\<close>

theorem zero_denominator:
  "percentage_of cnt 0 = Num 0
   \<and> (stats_total (getHabitStats days c h) = 0 \<longrightarrow>
        stats_percentage (getHabitStats days c h) = Num 0)
   \<and> ((days = [] \<or> (\<forall>d \<in> set days. cell_state c (format_yyyy_MM_dd d) h = SkippedDay)) \<longrightarrow>
        stats_total (getHabitStats days c h) = 0)
   \<and> (\<forall>n < length days. snd (tally_habits hs c (days ! n) (0, 0)) = 0 \<longrightarrow>
        day_percentage (dailyProgressData days hs c ! n) = Num 0)
   \<and> (snd (fold (tally_habits hs c) days (0, 0)) = 0 \<longrightarrow>
        monthlyOverallStats days hs c = \<lparr>completed = Num 0, incomplete = Num 0\<rparr>)
   \<and> (\<forall>m \<in> set (yearlyStats now cd hs c). month_totalPossible m = 0 \<longrightarrow>
        month_percentage m = Num 0)
   \<and> ((hs = [] \<or> days = [] \<or>
        (\<forall>d \<in> set days. \<forall>x \<in> set hs.
           cell_state c (format_yyyy_MM_dd d) (habit_id x) = SkippedDay)) \<longrightarrow>
        (\<forall>p \<in> set (dailyProgressData days hs c). day_percentage p = Num 0)
        \<and> monthlyOverallStats days hs c = \<lparr>completed = Num 0, incomplete = Num 0\<rparr>)
   \<and> ((hs = [] \<or> (\<forall>k. \<forall>x \<in> set hs. cell_state c k (habit_id x) = SkippedDay)) \<longrightarrow>
        (\<forall>m \<in> set (yearlyStats now cd hs c). month_percentage m = Num 0))"
proof -
  have p0: "percentage_of a 0 = Num 0" for a
    by (simp add: percentage_of_def)
  have habit: "stats_total (getHabitStats days c h) = 0 \<longrightarrow>
      stats_percentage (getHabitStats days c h) = Num 0"
    by (simp add: getHabitStats_counts(3) p0)
  have habit0: "stats_total (getHabitStats days c h) = 0"
    if "days = [] \<or> (\<forall>d \<in> set days. cell_state c (format_yyyy_MM_dd d) h = SkippedDay)"
    using that by (auto simp: getHabitStats_counts(2) filter_empty_conv)
  have daily: "\<forall>n < length days. snd (tally_habits hs c (days ! n) (0, 0)) = 0 \<longrightarrow>
      day_percentage (dailyProgressData days hs c ! n) = Num 0"
    by (simp add: day_percentage_eq p0)
  have monthly: "monthlyOverallStats days hs c = \<lparr>completed = Num 0, incomplete = Num 0\<rparr>"
    if "snd (fold (tally_habits hs c) days (0, 0)) = 0"
    using that by (cases "fold (tally_habits hs c) days (0, 0)") (simp add: monthlyOverallStats_def p0)
  have yearly: "\<forall>m \<in> set (yearlyStats now cd hs c). month_totalPossible m = 0 \<longrightarrow>
      month_percentage m = Num 0"
    by (auto simp: yearlyStats_def yearlyMonth_eq(1) p0)
  have skipped: "(\<forall>p \<in> set (dailyProgressData days hs c). day_percentage p = Num 0)
      \<and> monthlyOverallStats days hs c = \<lparr>completed = Num 0, incomplete = Num 0\<rparr>"
    if "hs = [] \<or> days = [] \<or>
        (\<forall>d \<in> set days. \<forall>x \<in> set hs.
           cell_state c (format_yyyy_MM_dd d) (habit_id x) = SkippedDay)"
  proof -
    from that
    have a: "\<forall>d \<in> set days. \<forall>x \<in> set hs.
        cell_state c (format_yyyy_MM_dd d) (habit_id x) = SkippedDay"
      by auto
    then have "fold (tally_habits hs c) days (0, 0) = (0, 0)"
      by (rule fold_tally_habits_all_skipped)
    then have "monthlyOverallStats days hs c = \<lparr>completed = Num 0, incomplete = Num 0\<rparr>"
      by (simp add: monthly)
    moreover have "day_percentage p = Num 0" if "p \<in> set (dailyProgressData days hs c)" for p
    proof -
      from that obtain d where "d \<in> set days"
        and "day_percentage p =
          percentage_of (fst (tally_habits hs c d (0, 0))) (snd (tally_habits hs c d (0, 0)))"
        by (auto simp: dailyProgressData_def split: prod.splits)
      with a show ?thesis
        by (simp add: tally_habits_all_skipped p0)
    qed
    ultimately show ?thesis
      by blast
  qed
  have skipped_year: "\<forall>m \<in> set (yearlyStats now cd hs c). month_percentage m = Num 0"
    if "hs = [] \<or> (\<forall>k. \<forall>x \<in> set hs. cell_state c k (habit_id x) = SkippedDay)"
  proof
    fix m
    assume "m \<in> set (yearlyStats now cd hs c)"
    then obtain i where m: "m = yearlyMonth now hs c (getFullYear cd) i"
      by (auto simp: yearlyStats_def)
    from that have "\<forall>d \<in> set (eachDayOfMonth (new_Date (getFullYear cd) i 1)). \<forall>x \<in> set hs.
        cell_state c (format_yyyy_MM_dd d) (habit_id x) = SkippedDay"
      by auto
    then have "fold (tally_habits hs c) (eachDayOfMonth (new_Date (getFullYear cd) i 1)) (0, 0)
        = (0, 0)"
      by (rule fold_tally_habits_all_skipped)
    then show "month_percentage m = Num 0"
      by (simp add: m yearlyMonth_eq p0)
  qed
  from p0 habit habit0 daily monthly yearly skipped skipped_year show ?thesis
    by blast
qed


theorem zero_denominator_witness:
  "stats_percentage (getHabitStats [] scenario_log ''1'') = Num 0
   \<and> cell_state skipped_log (format_yyyy_MM_dd sample_day) ''1'' = SkippedDay
   \<and> stats_percentage (getHabitStats [sample_day] skipped_log ''1'') = Num 0
   \<and> monthlyOverallStats two_days [] scenario_log = \<lparr>completed = Num 0, incomplete = Num 0\<rparr>
   \<and> day_percentage (dailyProgressData two_days [] scenario_log ! 0) = Num 0
   \<and> month_percentage (yearlyStats sample_day sample_day [] scenario_log ! 0) = Num 0"
proof -
  have s: "cell_state skipped_log (format_yyyy_MM_dd sample_day) ''1'' = SkippedDay"
    by (simp add: format_sample_days cell_state_def read_cell_def skipped_log_def)
  note a = zero_denominator [where days = "[]" and c = scenario_log and h = "''1''"]
  have "stats_total (getHabitStats [] scenario_log ''1'') = 0"
    by (rule a [THEN conjunct2, THEN conjunct2, THEN conjunct1, rule_format]) simp
  then have g1: "stats_percentage (getHabitStats [] scenario_log ''1'') = Num 0"
    by (rule a [THEN conjunct2, THEN conjunct1, rule_format])
  note b = zero_denominator [where days = "[sample_day]" and c = skipped_log and h = "''1''"]
  have "stats_total (getHabitStats [sample_day] skipped_log ''1'') = 0"
    by (rule b [THEN conjunct2, THEN conjunct2, THEN conjunct1, rule_format]) (simp add: s)
  then have g2: "stats_percentage (getHabitStats [sample_day] skipped_log ''1'') = Num 0"
    by (rule b [THEN conjunct2, THEN conjunct1, rule_format])
  note e = zero_denominator [where days = two_days and c = scenario_log and hs = "[]"
      and now = sample_day and cd = sample_day]
  note e7 = e [THEN conjunct2, THEN conjunct2, THEN conjunct2, THEN conjunct2, THEN conjunct2,
      THEN conjunct2, THEN conjunct1, rule_format]
  note e8 = e [THEN conjunct2, THEN conjunct2, THEN conjunct2, THEN conjunct2, THEN conjunct2,
      THEN conjunct2, THEN conjunct2, rule_format]
  have g3: "monthlyOverallStats two_days [] scenario_log
      = \<lparr>completed = Num 0, incomplete = Num 0\<rparr>"
    using e7 by simp
  have "dailyProgressData two_days [] scenario_log ! 0
      \<in> set (dailyProgressData two_days [] scenario_log)"
    by (rule nth_mem) (simp add: length_rollups two_days_def)
  then have g4: "day_percentage (dailyProgressData two_days [] scenario_log ! 0) = Num 0"
    using e7 by simp
  have "yearlyStats sample_day sample_day [] scenario_log ! 0
      \<in> set (yearlyStats sample_day sample_day [] scenario_log)"
    by (rule nth_mem) (simp add: length_rollups)
  then have g5: "month_percentage (yearlyStats sample_day sample_day [] scenario_log ! 0) = Num 0"
    using e8 by simp
  from s g1 g2 g3 g4 g5 show ?thesis
    by (intro conjI)
qed

text \<open>
  C10. For every habit list, completion log and list of days, each percentage that the
  statistics produce is a whole number from 0 to 100: the per-habit one, the one of each
  day, the completed and the incomplete share of the month, and the one of each of the
  12 months of the yearly rollup.
\<close>

theorem percentages_in_range:
  "is_percentage (stats_percentage (getHabitStats days c h))
   \<and> (\<forall>p \<in> set (dailyProgressData days hs c). is_percentage (day_percentage p))
   \<and> is_percentage (completed (monthlyOverallStats days hs c))
   \<and> is_percentage (incomplete (monthlyOverallStats days hs c))
   \<and> length (yearlyStats now cd hs c) = 12
   \<and> (\<forall>m \<in> set (yearlyStats now cd hs c). is_percentage (month_percentage m))"
proof (intro conjI ballI)
  show "is_percentage (stats_percentage (getHabitStats days c h))"
    unfolding getHabitStats_counts(3)
    by (rule is_percentage_percentage_of) (rule getHabitStats_count_le)
next
  fix p
  assume "p \<in> set (dailyProgressData days hs c)"
  then obtain n where "n < length days" "p = dailyProgressData days hs c ! n"
    unfolding in_set_conv_nth length_rollups by blast
  then show "is_percentage (day_percentage p)"
    by (simp add: day_percentage_eq is_percentage_percentage_of tally_habits_start_le)
next
  show "is_percentage (completed (monthlyOverallStats days hs c))"
    by (simp add: monthlyOverallStats_eq is_percentage_percentage_of fold_tally_habits_start_le)
next
  show "is_percentage (incomplete (monthlyOverallStats days hs c))"
  proof (cases "snd (fold (tally_habits hs c) days (0, 0)) = 0")
    case True
    then show ?thesis
      by (simp add: monthlyOverallStats_eq is_percentage_def)
  next
    case False
    then show ?thesis
      by (simp add: monthlyOverallStats_eq is_percentage_complement fold_tally_habits_start_le)
  qed
next
  show "length (yearlyStats now cd hs c) = 12"
    by (rule length_rollups)
next
  fix m
  assume "m \<in> set (yearlyStats now cd hs c)"
  then obtain i where "m = yearlyMonth now hs c (getFullYear cd) i"
    by (auto simp: yearlyStats_def)
  then show "is_percentage (month_percentage m)"
    by (simp add: yearlyMonth_eq is_percentage_percentage_of fold_tally_habits_start_le)
qed


theorem percentages_in_range_witness:
  "is_percentage (stats_percentage (getHabitStats two_days scenario_log ''1''))
   \<and> is_percentage (day_percentage (dailyProgressData two_days INITIAL_HABITS scenario_log ! 0))
   \<and> day_percentage (dailyProgressData two_days INITIAL_HABITS scenario_log ! 0) = Num 7
   \<and> is_percentage (completed (monthlyOverallStats two_days INITIAL_HABITS scenario_log))
   \<and> is_percentage (incomplete (monthlyOverallStats two_days INITIAL_HABITS scenario_log))
   \<and> length (yearlyStats sample_day sample_day INITIAL_HABITS scenario_log) = 12
   \<and> is_percentage
        (month_percentage (yearlyStats sample_day sample_day INITIAL_HABITS scenario_log ! 0))"
proof -
  note r = percentages_in_range [of two_days scenario_log "''1''" INITIAL_HABITS
      sample_day sample_day]
  have "dailyProgressData two_days INITIAL_HABITS scenario_log ! 0
      \<in> set (dailyProgressData two_days INITIAL_HABITS scenario_log)"
    by (rule nth_mem) (simp add: length_rollups two_days_def)
  with r have d: "is_percentage
      (day_percentage (dailyProgressData two_days INITIAL_HABITS scenario_log ! 0))"
    by blast
  have "yearlyStats sample_day sample_day INITIAL_HABITS scenario_log ! 0
      \<in> set (yearlyStats sample_day sample_day INITIAL_HABITS scenario_log)"
    by (rule nth_mem) (simp add: length_rollups)
  with r have y: "is_percentage
      (month_percentage (yearlyStats sample_day sample_day INITIAL_HABITS scenario_log ! 0))"
    by blast
  have "tally_habits INITIAL_HABITS scenario_log sample_day (0, 0) = (1, 15)"
    by (simp add: tally_habits_count format_sample_days INITIAL_HABITS_def cell_state_def
        read_cell_def scenario_log_def)
  then have v: "day_percentage (dailyProgressData two_days INITIAL_HABITS scenario_log ! 0) = Num 7"
    by (simp add: day_percentage_eq two_days_def percentage_of_1_15)
  from r d y v show ?thesis
    by blast
qed

section \<open>The state endpoint\<close>

text \<open>
  C9. The GET handler always answers with status 200. When no record is stored, and when
  the stored text does not parse, the answer is the default state
  \<open>{habits: [], completions: {}}\<close>; when the stored text parses, the answer is the
  parsed value.
\<close>

theorem onRequestGet_fallback:
  "resp_status (onRequestGet parse stringify row) = 200
   \<and> (row = None \<longrightarrow>
        onRequestGet parse stringify row = json_response stringify default_state 200)
   \<and> (\<forall>s e. row = Some s \<and> parse s = Inl e \<longrightarrow>
        onRequestGet parse stringify row = json_response stringify default_state 200)
   \<and> (\<forall>s v. row = Some s \<and> parse s = Inr v \<longrightarrow>
        onRequestGet parse stringify row = json_response stringify v 200)"
  by (auto simp: onRequestGet_def json_response_def split: option.splits sum.splits)

theorem onRequestGet_fallback_witness:
  "resp_body (onRequestGet parse_sample stringify_sample None) = ''{\"habits\":[],\"completions\":{}}''
   \<and> parse_sample ''not json'' = Inl SyntaxError
   \<and> resp_body (onRequestGet parse_sample stringify_sample (Some ''not json''))
       = ''{\"habits\":[],\"completions\":{}}''
   \<and> parse_sample ''null'' = Inr JNull
   \<and> resp_body (onRequestGet parse_sample stringify_sample (Some ''null'')) = ''null''
   \<and> resp_status (onRequestGet parse_sample stringify_sample (Some ''not json'')) = 200"
  using onRequestGet_fallback [of parse_sample stringify_sample None]
    onRequestGet_fallback [of parse_sample stringify_sample "Some ''not json''"]
    onRequestGet_fallback [of parse_sample stringify_sample "Some ''null''"]
  by (simp add: parse_sample_def stringify_sample_def json_response_def default_state_def)

end
